theory Spec2Isabelle
  imports Complex_Main "HOL-Library.Word" "HOL-Library.Multiset"
begin

section \<open>Numeric model\<close>

text \<open>
  The class template \<open>SignalProcessor<T, N>\<close> of \<open>Inc/SignalProcessor.hpp\<close> is embedded
  with the following reading of its numeric types.

  \<^item> \<open>float\<close> is modelled by \<open>real\<close>. The accumulators \<open>sum_\<close> and \<open>sumSq_\<close> and the mean
    are computed as the source computes them in single precision: the conversion
    \<open>(float)value\<close>, the product of the square, every addition to and subtraction from an
    accumulator, and the division of \<open>getMean\<close> are each rounded by \<open>binary32\<close> (to nearest,
    ties to even; every operation is evaluated in single precision, without contraction).
    Every other floating-point operation returns its exact result. Overflow to infinity
    and signed zeros are not modelled. The only invalid result that is modelled is the one
    of \<open>sqrtf\<close> on a negative argument.
  \<^item> The sample type \<open>T\<close> is modelled by \<open>real\<close> as well (the instance \<open>T = float\<close> of the
    README). An integral instance (\<open>int16_t\<close>, \<open>uint16_t\<close>, \<open>int32_t\<close>) is the special case
    in which every sample is a whole number.
  \<^item> \<open>uint32_t\<close> time stamps are \<open>32 word\<close> and the \<open>uint16_t\<close> derivative period is
    \<open>16 word\<close>, so that the subtraction of time stamps wraps around as in the source.
  \<^item> \<open>count_\<close> and \<open>index_\<close> (\<open>uint16_t\<close>) are natural numbers: for a capacity
    \<open>2 \<le> N \<le> 65535\<close> they never leave \<open>0..N\<close>, so no wrap-around can occur.
  \<^item> The template parameter \<open>N\<close> is an explicit argument of the operations that use it.
  \<^item> A literal such as \<open>0.1f\<close> or \<open>0.001f\<close> is the decimal fraction it is written as.

  A member \<open>x_\<close> of the class is the record field \<open>x_m\<close>.
\<close>

type_synonym u32 = "32 word"
type_synonym u16 = "16 word"

text \<open>Conversion of a floating-point value to \<open>int\<close>: truncation towards zero.\<close>

definition float_to_int :: "real \<Rightarrow> int" where
  "float_to_int x = (if 0 \<le> x then \<lfloor>x\<rfloor> else \<lceil>x\<rceil>)"

text \<open>The result of \<open>sqrtf\<close>: not-a-number on a negative argument.\<close>

datatype float_result = NaN | Finite real

definition sqrtf :: "real \<Rightarrow> float_result" where
  "sqrtf x = (if x < 0 then NaN else Finite (sqrt x))"

text \<open>
  Rounding to IEEE 754 binary32: to the nearest number with a significand of 24 bits, ties to
  the even significand, with the fixed spacing \<open>2^-149\<close> below \<open>2^-126\<close>; results beyond
  the largest finite number are not modelled.
\<close>

definition round_even :: "real \<Rightarrow> int" where
  "round_even x =
     (let n = \<lfloor>x\<rfloor>; r = x - of_int n
      in if r < 1 / 2 then n else if 1 / 2 < r then n + 1 else if even n then n else n + 1)"

definition binade :: "real \<Rightarrow> int" where
  "binade x = max (\<lfloor>log 2 \<bar>x\<bar>\<rfloor>) (- 126)"

definition binary32 :: "real \<Rightarrow> real" where
  "binary32 x =
     (if x = 0 then 0
      else (let q = 2 powr (of_int (binade x) - 23) in q * of_int (round_even (x / q))))"

definition valid_capacity :: "nat \<Rightarrow> bool" where
  "valid_capacity N \<longleftrightarrow> 2 \<le> N \<and> N \<le> 65535"

section \<open>State\<close>

record sp =
  buffer_m :: "real list"
  count_m :: nat
  index_m :: nat
  sum_m :: real
  sumSq_m :: real
  minVal_m :: real
  maxVal_m :: real
  needRecalcMinMax_m :: bool
  ema_m :: real
  lastValue_m :: real
  lastTimeMs_m :: u32
  derivativePeriodMs_m :: u16
  useEmaFilteredValueForDerivation_m :: bool
  derivative_m :: real
  derivativeFiltered_m :: real
  integrator_m :: real
  lastIntegrandValue_m :: real
  alphaEma_m :: real
  alphaDerivFilter_m :: real
  alphaLowpass_m :: real

text \<open>
  The constructor's initialiser list names neither \<open>buffer_\<close> nor \<open>derivativePeriodMs_\<close>
  nor \<open>useEmaFilteredValueForDerivation_\<close>. These members keep whatever the storage of the
  object held before the constructor ran: zeros for an object of static storage duration,
  indeterminate values for an automatic or heap object. The storage contents are the
  argument of the constructor.
\<close>

record storage =
  st_buffer :: "real list"
  st_derivativePeriodMs :: u16
  st_useEmaFilteredValueForDerivation :: bool

definition static_storage :: "nat \<Rightarrow> storage" where
  "static_storage N =
     \<lparr>st_buffer = replicate N 0, st_derivativePeriodMs = 0,
      st_useEmaFilteredValueForDerivation = False\<rparr>"

definition SignalProcessor :: "storage \<Rightarrow> sp" where
  "SignalProcessor st =
     \<lparr>buffer_m = st_buffer st,
      count_m = 0, index_m = 0,
      sum_m = 0, sumSq_m = 0,
      minVal_m = 0, maxVal_m = 0, needRecalcMinMax_m = False,
      ema_m = 0,
      lastValue_m = 0, lastTimeMs_m = 0,
      derivativePeriodMs_m = st_derivativePeriodMs st,
      useEmaFilteredValueForDerivation_m = st_useEmaFilteredValueForDerivation st,
      derivative_m = 0, derivativeFiltered_m = 0,
      integrator_m = 0, lastIntegrandValue_m = 0,
      alphaEma_m = 0.1, alphaDerivFilter_m = 0.2, alphaLowpass_m = 0.1\<rparr>"

section \<open>Configuration\<close>

definition clamp01 :: "real \<Rightarrow> real" where
  "clamp01 alpha = (if alpha < 0 then 0 else if alpha > 1 then 1 else alpha)"

definition setEmaAlpha :: "real \<Rightarrow> sp \<Rightarrow> sp" where
  "setEmaAlpha alpha s = s\<lparr>alphaEma_m := clamp01 alpha\<rparr>"

definition setDerivativePeriodMs :: "u16 \<Rightarrow> sp \<Rightarrow> sp" where
  "setDerivativePeriodMs period s = s\<lparr>derivativePeriodMs_m := period\<rparr>"

definition setIsEmaUseForDerivative :: "bool \<Rightarrow> sp \<Rightarrow> sp" where
  "setIsEmaUseForDerivative isEmaUse s = s\<lparr>useEmaFilteredValueForDerivation_m := isEmaUse\<rparr>"

definition setDerivativeFilterAlpha :: "real \<Rightarrow> sp \<Rightarrow> sp" where
  "setDerivativeFilterAlpha alpha s = s\<lparr>alphaDerivFilter_m := clamp01 alpha\<rparr>"

definition setLowpassAlpha :: "real \<Rightarrow> sp \<Rightarrow> sp" where
  "setLowpassAlpha alpha s = s\<lparr>alphaLowpass_m := clamp01 alpha\<rparr>"

section \<open>Lazy recomputation of the extrema\<close>

text \<open>The \<open>for\<close> loop of \<open>recalculateMinMax\<close>, from index \<open>i\<close> up to \<open>count_\<close>.\<close>

function recalc_loop :: "real list \<Rightarrow> nat \<Rightarrow> nat \<Rightarrow> real \<Rightarrow> real \<Rightarrow> real \<times> real" where
  "recalc_loop buf cnt i mn mx =
     (if i < cnt then
        recalc_loop buf cnt (Suc i)
          (if buf ! i < mn then buf ! i else mn)
          (if buf ! i > mx then buf ! i else mx)
      else (mn, mx))"
  by pat_completeness auto
termination
  by (relation "measure (\<lambda>(buf, cnt, i, mn, mx). cnt - i)") auto

declare recalc_loop.simps [simp del]

definition recalculateMinMax :: "sp \<Rightarrow> sp" where
  "recalculateMinMax s =
     (if count_m s = 0 then
        s\<lparr>minVal_m := 0, maxVal_m := 0, needRecalcMinMax_m := False\<rparr>
      else
        (case recalc_loop (buffer_m s) (count_m s) 1 (buffer_m s ! 0) (buffer_m s ! 0) of
           (mn, mx) \<Rightarrow> s\<lparr>minVal_m := mn, maxVal_m := mx, needRecalcMinMax_m := False\<rparr>))"

section \<open>Adding a sample\<close>

text \<open>
  \<open>add\<close> is the composition of the blocks of the source function, in the order of the
  source: eviction, store, extrema, EMA, rate module, index advance. The accumulators are
  \<open>float\<close> members: \<open>sum_ -= (float)oldValue\<close> converts, subtracts and rounds, and
  \<open>sumSq_ += (float)value * (float)value\<close> converts, multiplies and rounds, adds and rounds.
\<close>

definition add_evict :: "nat \<Rightarrow> sp \<Rightarrow> sp" where
  "add_evict N s =
     (if count_m s = N then
        (let oldValue = buffer_m s ! index_m s;
             s1 = s\<lparr>sum_m := binary32 (sum_m s - binary32 oldValue),
                     sumSq_m := binary32 (sumSq_m s
                                          - binary32 (binary32 oldValue * binary32 oldValue))\<rparr>
         in if oldValue = minVal_m s1 \<or> oldValue = maxVal_m s1
            then s1\<lparr>needRecalcMinMax_m := True\<rparr> else s1)
      else s\<lparr>count_m := count_m s + 1\<rparr>)"

definition add_store :: "real \<Rightarrow> sp \<Rightarrow> sp" where
  "add_store v s =
     s\<lparr>buffer_m := (buffer_m s)[index_m s := v],
       sum_m := binary32 (sum_m s + binary32 v),
       sumSq_m := binary32 (sumSq_m s + binary32 (binary32 v * binary32 v))\<rparr>"

definition add_minmax :: "real \<Rightarrow> sp \<Rightarrow> sp" where
  "add_minmax v s =
     (if count_m s = 1 then
        s\<lparr>minVal_m := v, maxVal_m := v, needRecalcMinMax_m := False\<rparr>
      else if \<not> needRecalcMinMax_m s then
        (let s1 = (if v < minVal_m s then s\<lparr>minVal_m := v\<rparr> else s)
         in if v > maxVal_m s1 then s1\<lparr>maxVal_m := v\<rparr> else s1)
      else s)"

definition add_ema :: "real \<Rightarrow> sp \<Rightarrow> sp" where
  "add_ema v s =
     (if count_m s = 1 then s\<lparr>ema_m := v\<rparr>
      else s\<lparr>ema_m := alphaEma_m s * v + (1 - alphaEma_m s) * ema_m s\<rparr>)"

text \<open>
  The guard of the rate module. \<open>timeMs - lastTimeMs_\<close> is a subtraction of \<open>uint32_t\<close>
  values and wraps around; it is compared, unsigned, with the \<open>uint16_t\<close> period.
\<close>

definition elapsedMs :: "sp \<Rightarrow> u32 \<Rightarrow> nat" where
  "elapsedMs s timeMs = unat (timeMs - lastTimeMs_m s)"

definition rate_gate :: "sp \<Rightarrow> u32 \<Rightarrow> bool" where
  "rate_gate s timeMs \<longleftrightarrow>
     0 < timeMs \<and> unat (derivativePeriodMs_m s) < elapsedMs s timeMs"

definition add_rate :: "real \<Rightarrow> u32 \<Rightarrow> sp \<Rightarrow> sp" where
  "add_rate v timeMs s =
     (if rate_gate s timeMs then
        (let dt = real (elapsedMs s timeMs) * 0.001;
             val = float_to_int (if useEmaFilteredValueForDerivation_m s then ema_m s else v);
             rawDerivative = (real_of_int val - lastValue_m s) / dt;
             s1 = s\<lparr>derivative_m := rawDerivative\<rparr>;
             s2 = (if count_m s1 \<le> 2 then s1\<lparr>derivativeFiltered_m := rawDerivative\<rparr>
                   else s1\<lparr>derivativeFiltered_m :=
                          alphaDerivFilter_m s1 * rawDerivative
                          + (1 - alphaDerivFilter_m s1) * derivativeFiltered_m s1\<rparr>);
             s3 = (if count_m s2 > 1
                   then s2\<lparr>integrator_m :=
                          integrator_m s2 + 0.5 * (lastIntegrandValue_m s2 + v) * dt\<rparr>
                   else s2);
             s4 = s3\<lparr>lastIntegrandValue_m := v\<rparr>;
             s5 = (if 0 < timeMs then s4\<lparr>lastTimeMs_m := timeMs\<rparr> else s4)
         in s5\<lparr>lastValue_m := real_of_int val\<rparr>)
      else s)"

definition add_advance :: "nat \<Rightarrow> sp \<Rightarrow> sp" where
  "add_advance N s =
     (let s1 = s\<lparr>index_m := index_m s + 1\<rparr>
      in if index_m s1 \<ge> N then s1\<lparr>index_m := 0\<rparr> else s1)"

definition add :: "nat \<Rightarrow> sp \<Rightarrow> real \<Rightarrow> u32 \<Rightarrow> sp" where
  "add N s v timeMs =
     add_advance N (add_rate v timeMs (add_ema v (add_minmax v (add_store v (add_evict N s)))))"

section \<open>Resets\<close>

definition reset :: "sp \<Rightarrow> sp" where
  "reset s =
     s\<lparr>count_m := 0, index_m := 0,
       sum_m := 0, sumSq_m := 0,
       minVal_m := 0, maxVal_m := 0, needRecalcMinMax_m := False,
       ema_m := 0,
       lastValue_m := 0, lastTimeMs_m := 0,
       derivative_m := 0, derivativeFiltered_m := 0,
       integrator_m := 0, lastIntegrandValue_m := 0\<rparr>"

definition resetIntegral :: "sp \<Rightarrow> sp" where
  "resetIntegral s = s\<lparr>integrator_m := 0, lastIntegrandValue_m := 0\<rparr>"

section \<open>Queries\<close>

definition getCount :: "sp \<Rightarrow> nat" where
  "getCount s = count_m s"

definition getSum :: "sp \<Rightarrow> real" where
  "getSum s = sum_m s"

definition getMean :: "sp \<Rightarrow> real" where
  "getMean s = (if count_m s > 0 then binary32 (sum_m s / real (count_m s)) else 0)"

definition getVariance :: "sp \<Rightarrow> real" where
  "getVariance s =
     (if count_m s \<le> 1 then 0
      else (let mean = getMean s
            in (sumSq_m s - real (count_m s) * mean * mean) / real (count_m s - 1)))"

definition getStdDev :: "sp \<Rightarrow> float_result" where
  "getStdDev s = sqrtf (getVariance s)"

text \<open>
  Arithmetic and comparisons on a result that may be not-a-number: an operation on
  not-a-number gives not-a-number, and every comparison with it is false.
\<close>

definition getCoefficientOfVariation :: "sp \<Rightarrow> float_result" where
  "getCoefficientOfVariation s =
     (let mean = getMean s
      in if mean = 0 then Finite 0
         else (case getStdDev s of NaN \<Rightarrow> NaN | Finite sd \<Rightarrow> Finite (sd / mean * 100)))"

definition isOutlier :: "sp \<Rightarrow> real \<Rightarrow> real \<Rightarrow> bool" where
  "isOutlier s v sigmaThreshold =
     (if count_m s < 2 then False
      else (let mean = getMean s
            in case getStdDev s of
                 NaN \<Rightarrow> False
               | Finite stdDev \<Rightarrow>
                   if stdDev = 0 then False
                   else (let deviation = v - mean;
                             deviation' = (if deviation < 0 then - deviation else deviation)
                         in deviation' > sigmaThreshold * stdDev)))"

definition isStable :: "nat \<Rightarrow> sp \<Rightarrow> real \<Rightarrow> bool" where
  "isStable N s maxStdDev \<longleftrightarrow>
     count_m s \<ge> N div 2 \<and>
     (case getStdDev s of NaN \<Rightarrow> False | Finite stdDev \<Rightarrow> stdDev < maxStdDev)"

text \<open>
  \<open>getMin\<close>, \<open>getMax\<close> and \<open>getRange\<close> are not \<open>const\<close>: they run the deferred
  recomputation first. They return the value and the state they leave behind.
\<close>

definition refresh :: "sp \<Rightarrow> sp" where
  "refresh s = (if needRecalcMinMax_m s then recalculateMinMax s else s)"

definition getMin :: "sp \<Rightarrow> real \<times> sp" where
  "getMin s = (let s1 = refresh s in (minVal_m s1, s1))"

definition getMax :: "sp \<Rightarrow> real \<times> sp" where
  "getMax s = (let s1 = refresh s in (maxVal_m s1, s1))"

definition getRange :: "sp \<Rightarrow> real \<times> sp" where
  "getRange s = (let s1 = refresh s in (maxVal_m s1 - minVal_m s1, s1))"

definition getEma :: "sp \<Rightarrow> real" where
  "getEma s = ema_m s"

definition getSma :: "sp \<Rightarrow> real" where
  "getSma s = getMean s"

definition getDerivative :: "sp \<Rightarrow> real" where
  "getDerivative s = derivative_m s"

definition getDerivativeFiltered :: "sp \<Rightarrow> real" where
  "getDerivativeFiltered s = derivativeFiltered_m s"

definition getIntegral :: "sp \<Rightarrow> real" where
  "getIntegral s = integrator_m s"

definition isFull :: "nat \<Rightarrow> sp \<Rightarrow> bool" where
  "isFull N s \<longleftrightarrow> count_m s = N"

definition isEmpty :: "sp \<Rightarrow> bool" where
  "isEmpty s \<longleftrightarrow> count_m s = 0"

definition getLastValue :: "sp \<Rightarrow> real" where
  "getLastValue s = lastValue_m s"

definition getLastTime :: "sp \<Rightarrow> u32" where
  "getLastTime s = lastTimeMs_m s"

definition getBuffer :: "sp \<Rightarrow> real list" where
  "getBuffer s = buffer_m s"

definition getBufferSize :: "nat \<Rightarrow> nat" where
  "getBufferSize N = N"

section \<open>Sequences of operations\<close>

datatype op =
    Add real u32
  | Reset
  | ResetIntegral
  | SetEmaAlpha real
  | SetDerivativePeriodMs u16
  | SetIsEmaUseForDerivative bool
  | SetDerivativeFilterAlpha real
  | SetLowpassAlpha real
  | GetMin
  | GetMax
  | GetRange

fun exec :: "nat \<Rightarrow> sp \<Rightarrow> op \<Rightarrow> sp" where
  "exec N s (Add v timeMs) = add N s v timeMs"
| "exec N s Reset = reset s"
| "exec N s ResetIntegral = resetIntegral s"
| "exec N s (SetEmaAlpha a) = setEmaAlpha a s"
| "exec N s (SetDerivativePeriodMs p) = setDerivativePeriodMs p s"
| "exec N s (SetIsEmaUseForDerivative b) = setIsEmaUseForDerivative b s"
| "exec N s (SetDerivativeFilterAlpha a) = setDerivativeFilterAlpha a s"
| "exec N s (SetLowpassAlpha a) = setLowpassAlpha a s"
| "exec N s GetMin = snd (getMin s)"
| "exec N s GetMax = snd (getMax s)"
| "exec N s GetRange = snd (getRange s)"

definition run :: "nat \<Rightarrow> sp \<Rightarrow> op list \<Rightarrow> sp" where
  "run N s ops = foldl (exec N) s ops"

section \<open>Vocabulary of the properties\<close>

text \<open>
  The resident samples are the first \<open>count_\<close> slots of the buffer, the slots that
  \<open>recalculateMinMax\<close> scans.
\<close>

definition resident :: "sp \<Rightarrow> real list" where
  "resident s = take (count_m s) (buffer_m s)"

text \<open>The last \<open>N\<close> elements of a list: the window a capacity-\<open>N\<close> ring buffer keeps.\<close>

definition window :: "nat \<Rightarrow> real list \<Rightarrow> real list" where
  "window N xs = drop (length xs - N) xs"

text \<open>The samples added since construction or the last \<open>reset\<close>, oldest first.\<close>

fun track :: "real list \<Rightarrow> op \<Rightarrow> real list" where
  "track h (Add v timeMs) = h @ [v]"
| "track h Reset = []"
| "track h _ = h"

definition samples :: "op list \<Rightarrow> real list" where
  "samples ops = foldl track [] ops"

text \<open>The resident samples in the order of their arrival.\<close>

definition chrono :: "sp \<Rightarrow> real list" where
  "chrono s =
     (if count_m s < length (buffer_m s) then take (count_m s) (buffer_m s)
      else drop (index_m s) (buffer_m s) @ take (index_m s) (buffer_m s))"

text \<open>
  The invariant that ties a state to the samples \<open>h\<close> added so far. The cached extrema are
  only required to be right while the stale flag is clear.
\<close>

definition tracks :: "nat \<Rightarrow> sp \<Rightarrow> real list \<Rightarrow> bool" where
  "tracks N s h \<longleftrightarrow>
     length (buffer_m s) = N \<and>
     count_m s = min N (length h) \<and>
     index_m s = length h mod N \<and>
     chrono s = window N h \<and>
     (needRecalcMinMax_m s \<or> h = [] \<or>
        (minVal_m s = Min (set (window N h)) \<and> maxVal_m s = Max (set (window N h))))"




text \<open>The state \<open>add\<close> has reached when it arrives at the rate module.\<close>

definition before_rate :: "nat \<Rightarrow> sp \<Rightarrow> real \<Rightarrow> sp" where
  "before_rate N s v = add_ema v (add_minmax v (add_store v (add_evict N s)))"

definition evicts_extremum :: "nat \<Rightarrow> sp \<Rightarrow> bool" where
  "evicts_extremum N s \<longleftrightarrow>
     count_m s = N \<and>
     (buffer_m s ! index_m s = minVal_m s \<or> buffer_m s ! index_m s = maxVal_m s)"

text \<open>The state of the rate module, and the state of everything \<open>add\<close> maintains besides.\<close>

definition rate_state :: "sp \<Rightarrow> real \<times> real \<times> real \<times> real \<times> real \<times> u32" where
  "rate_state s =
     (derivative_m s, derivativeFiltered_m s, integrator_m s,
      lastIntegrandValue_m s, lastValue_m s, lastTimeMs_m s)"


text \<open>Everything a caller can read from a processor: the results of all its queries.\<close>

definition observe :: "nat \<Rightarrow> sp \<Rightarrow>
   (nat \<times> real \<times> real \<times> real \<times> float_result \<times> float_result) \<times> (real \<times> real \<times> real) \<times>
   (real \<times> real \<times> real \<times> real \<times> real) \<times>
   ((real \<Rightarrow> real \<Rightarrow> bool) \<times> (real \<Rightarrow> bool) \<times> bool \<times> bool) \<times>
   (real list \<times> nat \<times> real \<times> u32)" where
  "observe N s =
     ((getCount s, getSum s, getMean s, getVariance s, getStdDev s, getCoefficientOfVariation s),
      (fst (getMin s), fst (getMax s), fst (getRange s)),
      (getEma s, getSma s, getDerivative s, getDerivativeFiltered s, getIntegral s),
      (isOutlier s, isStable N s, isFull N s, isEmpty s),
      (getBuffer s, getBufferSize N, getLastValue s, getLastTime s))"

text \<open>The locals \<open>val\<close>, \<open>dt\<close> and \<open>rawDerivative\<close> of the rate module.\<close>

definition val_of :: "sp \<Rightarrow> real \<Rightarrow> int" where
  "val_of s v = float_to_int (if useEmaFilteredValueForDerivation_m s then ema_m s else v)"

definition dt_of :: "sp \<Rightarrow> u32 \<Rightarrow> real" where
  "dt_of s timeMs = real (elapsedMs s timeMs) * 0.001"

definition rawDerivative_of :: "sp \<Rightarrow> real \<Rightarrow> u32 \<Rightarrow> real" where
  "rawDerivative_of s v timeMs = (real_of_int (val_of s v) - lastValue_m s) / dt_of s timeMs"

section \<open>Example states\<close>

text \<open>An automatic object whose storage held other data before the constructor ran.\<close>

definition ex_stack_storage :: storage where
  "ex_stack_storage =
     \<lparr>st_buffer = [7, 7], st_derivativePeriodMs = 500,
      st_useEmaFilteredValueForDerivation = True\<rparr>"

text \<open>A static \<open>SignalProcessor<float, 4>\<close>, freshly constructed.\<close>

definition ex_static4 :: sp where
  "ex_static4 = SignalProcessor (static_storage 4)"

text \<open>A first sample taken shortly before the millisecond counter wraps around.\<close>

definition ex_wrap :: sp where
  "ex_wrap = add 4 (SignalProcessor (static_storage 4)) 3 4294967000"


text \<open>The derivative taken from the EMA output, with \<open>alpha = 1/2\<close>; a first sample at 1000 ms.\<close>

definition ex_ema_deriv :: sp where
  "ex_ema_deriv =
     add 4 (setEmaAlpha (1 / 2) (setIsEmaUseForDerivative True (SignalProcessor (static_storage 4))))
       10 1000"

text \<open>Two samples added without a time stamp, derivative filter \<open>alpha = 1/2\<close>.\<close>

definition ex_untimed :: sp where
  "ex_untimed =
     add 4 (add 4 (setDerivativeFilterAlpha (1 / 2) (SignalProcessor (static_storage 4))) 1 0) 2 0"

text \<open>The operations that lead to \<open>ex_ema_deriv\<close> and to \<open>ex_untimed\<close>.\<close>

definition ex_ema_ops :: "op list" where
  "ex_ema_ops = [SetIsEmaUseForDerivative True, SetEmaAlpha (1 / 2), Add 10 1000]"

definition ex_untimed_ops :: "op list" where
  "ex_untimed_ops = [SetDerivativeFilterAlpha (1 / 2), Add 1 0, Add 2 0]"

text \<open>
  A \<open>SignalProcessor<uint16_t, 3>\<close> after \<open>add(4097)\<close> three times, a constant signal.
  The square \<open>4097 * 4097 = 16785409\<close> needs 25 significant bits and is rounded to
  \<open>16785408\<close>, so that \<open>sumSq_\<close> is \<open>3 * 16785408 = 50356224\<close> instead of \<open>50356227\<close>.
\<close>

definition ex_rounded :: sp where
  "ex_rounded = run 3 (SignalProcessor (static_storage 3)) [Add 4097 0, Add 4097 0, Add 4097 0]"



section \<open>Rounding\<close>

text \<open>Evaluation of the rounding within a binade.\<close>

lemma binade_eq:
  assumes "2 ^ n \<le> \<bar>x\<bar>" and "\<bar>x\<bar> < 2 ^ Suc n"
  shows "binade x = int n"
proof -
  have "(0::real) < 2 ^ n" by simp
  then have pos: "0 < \<bar>x\<bar>" using assms(1) by linarith
  have "real n \<le> log 2 \<bar>x\<bar>"
    using assms(1) pos by (simp add: le_log_iff powr_realpow)
  moreover have "log 2 \<bar>x\<bar> < real n + 1"
    using assms(2) pos by (simp add: log_less_iff powr_realpow powr_add)
  ultimately have "\<lfloor>log 2 \<bar>x\<bar>\<rfloor> = int n" by linarith
  then show ?thesis by (simp add: binade_def)
qed

lemma binary32_large:
  assumes "2 ^ n \<le> \<bar>x\<bar>" and "\<bar>x\<bar> < 2 ^ Suc n" and "23 \<le> n"
  shows "binary32 x = 2 ^ (n - 23) * of_int (round_even (x / 2 ^ (n - 23)))"
proof -
  have "(0::real) < 2 ^ n" by simp
  then have "0 < \<bar>x\<bar>" using assms(1) by linarith
  then have "x \<noteq> 0" by simp
  moreover have "2 powr (of_int (binade x) - 23) = (2::real) ^ (n - 23)"
    using assms(3) by (simp add: binade_eq [OF assms(1,2)] powr_realpow [symmetric] of_nat_diff)
  ultimately show ?thesis by (simp add: binary32_def Let_def)
qed

lemma binary32_small:
  assumes "2 ^ n \<le> \<bar>x\<bar>" and "\<bar>x\<bar> < 2 ^ Suc n" and "n \<le> 23"
  shows "binary32 x = of_int (round_even (x * 2 ^ (23 - n))) / 2 ^ (23 - n)"
proof -
  have "(0::real) < 2 ^ n" by simp
  then have "0 < \<bar>x\<bar>" using assms(1) by linarith
  then have "x \<noteq> 0" by simp
  moreover have "2 powr (of_int (binade x) - 23) = 1 / (2::real) ^ (23 - n)"
  proof -
    have "real_of_int (binade x) - 23 = - real (23 - n)"
      using assms(3) by (simp add: binade_eq [OF assms(1,2)] of_nat_diff)
    then show ?thesis by (simp add: powr_minus powr_realpow divide_inverse)
  qed
  ultimately show ?thesis by (simp add: binary32_def Let_def)
qed

lemma round_even_int [simp]: "round_even (of_int k) = k"
  by (simp add: round_even_def)

text \<open>The binary32 values of the numbers that occur in the example of a constant signal.\<close>

lemma binary32_values:
  "binary32 4097 = 4097"
  "binary32 8194 = 8194"
  "binary32 12291 = 12291"
  "binary32 16785409 = 16785408"
  "binary32 16785408 = 16785408"
  "binary32 33570816 = 33570816"
  "binary32 50356224 = 50356224"
  "binary32 50356227 = 50356228"
  "binary32 (- 4) = - 4"
  "binary32 (- 2) = - 2"
  subgoal by (subst binary32_small [where n = 12]) (simp_all add: round_even_def)
  subgoal by (subst binary32_small [where n = 13]) (simp_all add: round_even_def)
  subgoal by (subst binary32_small [where n = 13]) (simp_all add: round_even_def)
  subgoal by (subst binary32_large [where n = 24]) (simp_all add: round_even_def)
  subgoal by (subst binary32_large [where n = 24]) (simp_all add: round_even_def)
  subgoal by (subst binary32_large [where n = 25]) (simp_all add: round_even_def)
  subgoal by (subst binary32_large [where n = 25]) (simp_all add: round_even_def)
  subgoal by (subst binary32_large [where n = 25]) (simp_all add: round_even_def)
  subgoal by (subst binary32_small [where n = 2]) (simp_all add: round_even_def)
  subgoal by (subst binary32_small [where n = 1]) (simp_all add: round_even_def)
  done

text \<open>A whole number of magnitude at most \<open>2^24\<close> is a binary32 number.\<close>

lemma binary32_int:
  assumes "x \<in> \<int>" and "\<bar>x\<bar> \<le> 16777216"
  shows "binary32 x = x"
proof (cases "x = 0")
  case True
  then show ?thesis by (simp add: binary32_def)
next
  case False
  obtain k where k: "x = of_int k" using assms(1) by (auto elim: Ints_cases)
  have k0: "k \<noteq> 0" using False k by auto
  then have "1 \<le> nat \<bar>k\<bar>" by auto
  from ex_power_ivl1 [OF _ this, of 2]
  obtain n where n: "2 ^ n \<le> nat \<bar>k\<bar>" "nat \<bar>k\<bar> < 2 ^ (n + 1)" by auto
  have ax: "\<bar>x\<bar> = real (nat \<bar>k\<bar>)" by (simp add: k)
  have lo: "2 ^ n \<le> \<bar>x\<bar>"
    unfolding ax using n(1) by (metis of_nat_le_iff of_nat_numeral of_nat_power)
  have hi: "\<bar>x\<bar> < 2 ^ Suc n"
    unfolding ax using n(2) by (metis Suc_eq_plus1 of_nat_less_iff of_nat_numeral of_nat_power)
  have "(2::real) ^ n \<le> 16777216" using lo assms(2) by linarith
  with power_le_imp_le_exp [of "2::real" n 24] have n24: "n \<le> 24" by simp
  show ?thesis
  proof (cases "n \<le> 23")
    case True
    have "x * 2 ^ (23 - n) = of_int (k * 2 ^ (23 - n))" by (simp add: k)
    then have "round_even (x * 2 ^ (23 - n)) = k * 2 ^ (23 - n)"
      by (simp only: round_even_int)
    then show ?thesis using binary32_small [OF lo hi True] by (simp add: k)
  next
    case False
    then have e: "n = 24" using n24 by simp
    then have "\<bar>x\<bar> = 16777216" using lo assms(2) by simp
    then have "\<bar>k\<bar> = 16777216" using k by (simp flip: of_int_abs)
    then have "k = 16777216 \<or> k = - 16777216" by auto
    then have "x = 16777216 \<or> x = - 16777216" using k by auto
    then show ?thesis
    proof
      assume x: "x = 16777216"
      have "16777216 / 2 = real_of_int 8388608" by simp
      then have "round_even (16777216 / 2) = 8388608" by (simp only: round_even_int)
      then show ?thesis using binary32_large [OF lo hi] e x by simp
    next
      assume x: "x = - 16777216"
      have "- 16777216 / 2 = real_of_int (- 8388608)" by simp
      then have "round_even (- 16777216 / 2) = - 8388608" by (simp only: round_even_int)
      then show ?thesis using binary32_large [OF lo hi] e x by simp
    qed
  qed
qed





section \<open>The blocks of \<open>add\<close>, member by member\<close>

text \<open>Each block as one record update, with the case distinctions inside the new values.\<close>

lemma add_evict_nf:
  "add_evict N s =
     s\<lparr>count_m := (if count_m s = N then count_m s else count_m s + 1),
       sum_m := (if count_m s = N then binary32 (sum_m s - binary32 (buffer_m s ! index_m s))
                 else sum_m s),
       sumSq_m := (if count_m s = N
                   then binary32 (sumSq_m s - binary32 (binary32 (buffer_m s ! index_m s)
                                                        * binary32 (buffer_m s ! index_m s)))
                   else sumSq_m s),
       needRecalcMinMax_m :=
         (if count_m s = N \<and> (buffer_m s ! index_m s = minVal_m s \<or> buffer_m s ! index_m s = maxVal_m s)
          then True else needRecalcMinMax_m s)\<rparr>"
  by (simp add: add_evict_def Let_def)

lemma add_minmax_nf:
  "add_minmax v s =
     s\<lparr>minVal_m := (if count_m s = 1 then v
                     else if \<not> needRecalcMinMax_m s \<and> v < minVal_m s then v else minVal_m s),
       maxVal_m := (if count_m s = 1 then v
                     else if \<not> needRecalcMinMax_m s \<and> v > maxVal_m s then v else maxVal_m s),
       needRecalcMinMax_m := (if count_m s = 1 then False else needRecalcMinMax_m s)\<rparr>"
  by (simp add: add_minmax_def Let_def)

lemma add_ema_nf:
  "add_ema v s =
     s\<lparr>ema_m := (if count_m s = 1 then v
                  else alphaEma_m s * v + (1 - alphaEma_m s) * ema_m s)\<rparr>"
  by (simp add: add_ema_def)

lemma add_rate_nf:
  "add_rate v t s =
     s\<lparr>derivative_m := (if rate_gate s t then rawDerivative_of s v t else derivative_m s),
       derivativeFiltered_m :=
         (if rate_gate s t then
            (if count_m s \<le> 2 then rawDerivative_of s v t
             else alphaDerivFilter_m s * rawDerivative_of s v t
                  + (1 - alphaDerivFilter_m s) * derivativeFiltered_m s)
          else derivativeFiltered_m s),
       integrator_m :=
         (if rate_gate s t \<and> 1 < count_m s
          then integrator_m s + 0.5 * (lastIntegrandValue_m s + v) * dt_of s t
          else integrator_m s),
       lastIntegrandValue_m := (if rate_gate s t then v else lastIntegrandValue_m s),
       lastTimeMs_m := (if rate_gate s t then t else lastTimeMs_m s),
       lastValue_m := (if rate_gate s t then real_of_int (val_of s v) else lastValue_m s)\<rparr>"
  by (simp add: add_rate_def Let_def rawDerivative_of_def dt_of_def val_of_def rate_gate_def)

lemma add_advance_nf:
  "add_advance N s = s\<lparr>index_m := (if N \<le> index_m s + 1 then 0 else index_m s + 1)\<rparr>"
  by (simp add: add_advance_def Let_def)

text \<open>The gate reads the last time stamp and the period only, and the blocks before the rate
  module leave the members of the rate module and the configuration alone.\<close>

lemma rate_gate_indep:
  "lastTimeMs_m s' = lastTimeMs_m s \<Longrightarrow> derivativePeriodMs_m s' = derivativePeriodMs_m s \<Longrightarrow>
   rate_gate s' t = rate_gate s t"
  by (simp add: rate_gate_def elapsedMs_def)

lemma elapsedMs_indep:
  "lastTimeMs_m s' = lastTimeMs_m s \<Longrightarrow> elapsedMs s' t = elapsedMs s t"
  by (simp add: elapsedMs_def)

lemma before_rate_rate_fields [simp]:
  "lastTimeMs_m (before_rate N s v) = lastTimeMs_m s"
  "derivativePeriodMs_m (before_rate N s v) = derivativePeriodMs_m s"
  "useEmaFilteredValueForDerivation_m (before_rate N s v) = useEmaFilteredValueForDerivation_m s"
  "lastValue_m (before_rate N s v) = lastValue_m s"
  "derivative_m (before_rate N s v) = derivative_m s"
  "derivativeFiltered_m (before_rate N s v) = derivativeFiltered_m s"
  "integrator_m (before_rate N s v) = integrator_m s"
  "lastIntegrandValue_m (before_rate N s v) = lastIntegrandValue_m s"
  "alphaDerivFilter_m (before_rate N s v) = alphaDerivFilter_m s"
  "alphaEma_m (before_rate N s v) = alphaEma_m s"
  "alphaLowpass_m (before_rate N s v) = alphaLowpass_m s"
  by (simp_all add: before_rate_def add_evict_nf add_store_def add_minmax_nf add_ema_nf)

lemma before_rate_gate [simp]: "rate_gate (before_rate N s v) t = rate_gate s t"
  by (rule rate_gate_indep) simp_all

lemma before_rate_elapsed [simp]: "elapsedMs (before_rate N s v) t = elapsedMs s t"
  by (rule elapsedMs_indep) simp

lemma before_rate_count [simp]:
  "count_m (before_rate N s v) = (if count_m s = N then N else count_m s + 1)"
  by (simp add: before_rate_def add_evict_nf add_store_def add_minmax_nf add_ema_nf)

lemma add_before_rate: "add N s v t = add_advance N (add_rate v t (before_rate N s v))"
  by (simp add: add_def before_rate_def)

text \<open>The members after \<open>add\<close>: the rate module changes its own members only, and the last
  block the index only.\<close>

lemma add_core_fields [simp]:
  "buffer_m (add N s v t) = buffer_m (before_rate N s v)"
  "count_m (add N s v t) = (if count_m s = N then N else count_m s + 1)"
  "index_m (add N s v t) = (if N \<le> index_m s + 1 then 0 else index_m s + 1)"
  "sum_m (add N s v t) = sum_m (before_rate N s v)"
  "sumSq_m (add N s v t) = sumSq_m (before_rate N s v)"
  "minVal_m (add N s v t) = minVal_m (before_rate N s v)"
  "maxVal_m (add N s v t) = maxVal_m (before_rate N s v)"
  "needRecalcMinMax_m (add N s v t) = needRecalcMinMax_m (before_rate N s v)"
  "ema_m (add N s v t) = ema_m (before_rate N s v)"
  "derivativePeriodMs_m (add N s v t) = derivativePeriodMs_m s"
  "useEmaFilteredValueForDerivation_m (add N s v t) = useEmaFilteredValueForDerivation_m s"
  "alphaEma_m (add N s v t) = alphaEma_m s"
  "alphaDerivFilter_m (add N s v t) = alphaDerivFilter_m s"
  "alphaLowpass_m (add N s v t) = alphaLowpass_m s"
  by (simp_all add: add_before_rate add_rate_nf add_advance_nf)
     (simp_all add: before_rate_def add_evict_nf add_store_def add_minmax_nf add_ema_nf)

lemma add_rate_fields:
  "lastTimeMs_m (add N s v t) = (if rate_gate s t then t else lastTimeMs_m s)"
  "lastIntegrandValue_m (add N s v t) = (if rate_gate s t then v else lastIntegrandValue_m s)"
  "lastValue_m (add N s v t) =
     (if rate_gate s t
      then real_of_int (float_to_int (if useEmaFilteredValueForDerivation_m s
                                      then ema_m (add N s v t) else v))
      else lastValue_m s)"
  "derivative_m (add N s v t) =
     (if rate_gate s t
      then (real_of_int (float_to_int (if useEmaFilteredValueForDerivation_m s
                                       then ema_m (add N s v t) else v))
            - lastValue_m s) / (real (elapsedMs s t) * 0.001)
      else derivative_m s)"
  "derivativeFiltered_m (add N s v t) =
     (if rate_gate s t then
        (if count_m (add N s v t) \<le> 2 then derivative_m (add N s v t)
         else alphaDerivFilter_m s * derivative_m (add N s v t)
              + (1 - alphaDerivFilter_m s) * derivativeFiltered_m s)
      else derivativeFiltered_m s)"
  "integrator_m (add N s v t) =
     (if rate_gate s t \<and> 1 < count_m (add N s v t)
      then integrator_m s + 0.5 * (lastIntegrandValue_m s + v) * (real (elapsedMs s t) * 0.001)
      else integrator_m s)"
  by (simp_all add: add_before_rate add_rate_nf add_advance_nf rawDerivative_of_def dt_of_def val_of_def)

text \<open>Buffer, sums and extrema after the first four blocks.\<close>

lemma before_rate_store:
  "buffer_m (before_rate N s v) = (buffer_m s)[index_m s := v]"
  "index_m (before_rate N s v) = index_m s"
  "sum_m (before_rate N s v) =
     binary32 ((if count_m s = N then binary32 (sum_m s - binary32 (buffer_m s ! index_m s))
                else sum_m s) + binary32 v)"
  "sumSq_m (before_rate N s v) =
     binary32 ((if count_m s = N
                then binary32 (sumSq_m s - binary32 (binary32 (buffer_m s ! index_m s)
                                                     * binary32 (buffer_m s ! index_m s)))
                else sumSq_m s) + binary32 (binary32 v * binary32 v))"
  by (simp_all add: before_rate_def add_evict_nf add_store_def add_minmax_nf add_ema_nf)

lemma before_rate_minmax:
  "needRecalcMinMax_m (before_rate N s v) =
     (if (if count_m s = N then N else count_m s + 1) = 1 then False
      else evicts_extremum N s \<or> needRecalcMinMax_m s)"
  "minVal_m (before_rate N s v) =
     (if (if count_m s = N then N else count_m s + 1) = 1 then v
      else if \<not> (evicts_extremum N s \<or> needRecalcMinMax_m s) \<and> v < minVal_m s then v
      else minVal_m s)"
  "maxVal_m (before_rate N s v) =
     (if (if count_m s = N then N else count_m s + 1) = 1 then v
      else if \<not> (evicts_extremum N s \<or> needRecalcMinMax_m s) \<and> v > maxVal_m s then v
      else maxVal_m s)"
  by (auto simp: before_rate_def add_evict_nf add_store_def add_minmax_nf add_ema_nf
      evicts_extremum_def)

section \<open>Evaluation of the example states\<close>

text \<open>The storage of a static object, written out, and the definitions that evaluate a call.\<close>

lemma static_storage_4:
  "static_storage 4 = \<lparr>st_buffer = [0, 0, 0, 0], st_derivativePeriodMs = 0,
      st_useEmaFilteredValueForDerivation = False\<rparr>"
  by (simp add: static_storage_def numeral_eq_Suc)

lemmas eval_defs = add_def add_evict_def add_store_def add_minmax_def add_ema_def add_rate_def
  add_advance_def Let_def rate_gate_def elapsedMs_def float_to_int_def SignalProcessor_def
  setEmaAlpha_def setDerivativePeriodMs_def setIsEmaUseForDerivative_def
  setDerivativeFilterAlpha_def setLowpassAlpha_def clamp01_def binary32_int

text \<open>The example states, member by member.\<close>

lemma ex_wrap_eq:
  "ex_wrap = \<lparr>buffer_m = [3, 0, 0, 0], count_m = 1, index_m = 1, sum_m = 3, sumSq_m = 9,
      minVal_m = 3, maxVal_m = 3, needRecalcMinMax_m = False, ema_m = 3,
      lastValue_m = 3, lastTimeMs_m = 4294967000, derivativePeriodMs_m = 0,
      useEmaFilteredValueForDerivation_m = False,
      derivative_m = 3 / 4294967, derivativeFiltered_m = 3 / 4294967,
      integrator_m = 0, lastIntegrandValue_m = 3,
      alphaEma_m = 0.1, alphaDerivFilter_m = 0.2, alphaLowpass_m = 0.1\<rparr>"
  unfolding ex_wrap_def static_storage_4
  by (simp add: eval_defs)

lemma ex_ema_deriv_eq:
  "ex_ema_deriv = \<lparr>buffer_m = [10, 0, 0, 0], count_m = 1, index_m = 1, sum_m = 10, sumSq_m = 100,
      minVal_m = 10, maxVal_m = 10, needRecalcMinMax_m = False, ema_m = 10,
      lastValue_m = 10, lastTimeMs_m = 1000, derivativePeriodMs_m = 0,
      useEmaFilteredValueForDerivation_m = True,
      derivative_m = 10, derivativeFiltered_m = 10,
      integrator_m = 0, lastIntegrandValue_m = 10,
      alphaEma_m = 1 / 2, alphaDerivFilter_m = 0.2, alphaLowpass_m = 0.1\<rparr>"
  unfolding ex_ema_deriv_def static_storage_4
  by (simp add: eval_defs)

lemma ex_untimed_eq:
  "ex_untimed = \<lparr>buffer_m = [1, 2, 0, 0], count_m = 2, index_m = 2, sum_m = 3, sumSq_m = 5,
      minVal_m = 1, maxVal_m = 2, needRecalcMinMax_m = False, ema_m = 11 / 10,
      lastValue_m = 0, lastTimeMs_m = 0, derivativePeriodMs_m = 0,
      useEmaFilteredValueForDerivation_m = False,
      derivative_m = 0, derivativeFiltered_m = 0,
      integrator_m = 0, lastIntegrandValue_m = 0,
      alphaEma_m = 0.1, alphaDerivFilter_m = 1 / 2, alphaLowpass_m = 0.1\<rparr>"
  unfolding ex_untimed_def static_storage_4
  by (simp add: eval_defs)

lemma ex_ema_run: "ex_ema_deriv = run 4 (SignalProcessor (static_storage 4)) ex_ema_ops"
  by (simp add: run_def ex_ema_ops_def ex_ema_deriv_def)

lemma ex_untimed_run: "ex_untimed = run 4 (SignalProcessor (static_storage 4)) ex_untimed_ops"
  by (simp add: run_def ex_untimed_ops_def ex_untimed_def)

lemma static_storage_3:
  "static_storage 3 = \<lparr>st_buffer = [0, 0, 0], st_derivativePeriodMs = 0,
      st_useEmaFilteredValueForDerivation = False\<rparr>"
  by (simp add: static_storage_def numeral_eq_Suc)

lemma ex_rounded_fields:
  "count_m ex_rounded = 3" "sum_m ex_rounded = 12291" "sumSq_m ex_rounded = 50356224"
  "buffer_m ex_rounded = [4097, 4097, 4097]"
  unfolding ex_rounded_def static_storage_3 run_def
  by (simp_all add: SignalProcessor_def before_rate_def add_evict_nf add_store_def add_minmax_nf
      add_ema_nf binary32_values)

text \<open>
  The accumulators of \<open>ex_rounded\<close> spelled out as the rounded operations of the three calls
  of \<open>add\<close>; \<open>getVariance\<close> with each of its operations rounded in the same way is negative
  on them.
\<close>

lemma ex_rounded_binary32:
  "sum_m ex_rounded = binary32 (binary32 (binary32 (0 + 4097) + 4097) + 4097)"
  "sumSq_m ex_rounded =
     binary32 (binary32 (binary32 (0 + binary32 (4097 * 4097)) + binary32 (4097 * 4097))
               + binary32 (4097 * 4097))"
  "binary32 (binary32 (sumSq_m ex_rounded
                      - binary32 (binary32 (3 * binary32 (sum_m ex_rounded / 3))
                                  * binary32 (sum_m ex_rounded / 3)))
             / 2) = - 2"
  by (simp_all add: ex_rounded_fields binary32_values)


section \<open>Time stamps\<close>

text \<open>The elapsed time is a difference modulo \<open>2^32\<close>.\<close>

lemma elapsed_wrap:
  "timeMs < lastTimeMs_m s \<Longrightarrow> elapsedMs s timeMs = 2 ^ 32 + unat timeMs - unat (lastTimeMs_m s)"
  unfolding elapsedMs_def
  by (simp add: unat_sub_if' word_less_nat_alt)

lemma elapsed_mod:
  "int (elapsedMs s timeMs) = (uint timeMs - uint (lastTimeMs_m s)) mod 2 ^ 32"
  unfolding elapsedMs_def
  by (simp add: uint_word_ariths)

section \<open>The low-pass coefficient\<close>

text \<open>No block of \<open>add\<close> and no other operation reads \<open>alphaLowpass_\<close>: changing it commutes
  with every operation.\<close>

lemma blocks_lowpass:
  "add_evict N (s\<lparr>alphaLowpass_m := a\<rparr>) = (add_evict N s)\<lparr>alphaLowpass_m := a\<rparr>"
  "add_store v (s\<lparr>alphaLowpass_m := a\<rparr>) = (add_store v s)\<lparr>alphaLowpass_m := a\<rparr>"
  "add_minmax v (s\<lparr>alphaLowpass_m := a\<rparr>) = (add_minmax v s)\<lparr>alphaLowpass_m := a\<rparr>"
  "add_ema v (s\<lparr>alphaLowpass_m := a\<rparr>) = (add_ema v s)\<lparr>alphaLowpass_m := a\<rparr>"
  "add_rate v t (s\<lparr>alphaLowpass_m := a\<rparr>) = (add_rate v t s)\<lparr>alphaLowpass_m := a\<rparr>"
  "add_advance N (s\<lparr>alphaLowpass_m := a\<rparr>) = (add_advance N s)\<lparr>alphaLowpass_m := a\<rparr>"
  by (simp_all add: add_evict_def add_store_def add_minmax_def add_ema_def add_rate_def
      add_advance_def Let_def rate_gate_def elapsedMs_def)

lemma add_lowpass: "add N (s\<lparr>alphaLowpass_m := a\<rparr>) v t = (add N s v t)\<lparr>alphaLowpass_m := a\<rparr>"
  by (simp add: add_def blocks_lowpass)

lemma recalculateMinMax_lowpass:
  "recalculateMinMax (s\<lparr>alphaLowpass_m := a\<rparr>) = (recalculateMinMax s)\<lparr>alphaLowpass_m := a\<rparr>"
  by (simp add: recalculateMinMax_def split: prod.splits)

lemma refresh_lowpass: "refresh (s\<lparr>alphaLowpass_m := a\<rparr>) = (refresh s)\<lparr>alphaLowpass_m := a\<rparr>"
  by (simp add: refresh_def recalculateMinMax_lowpass)

lemma exec_lowpass:
  "exec N (s\<lparr>alphaLowpass_m := a\<rparr>) x =
     (exec N s x)\<lparr>alphaLowpass_m := (case x of SetLowpassAlpha c \<Rightarrow> clamp01 c | _ \<Rightarrow> a)\<rparr>"
proof (cases x)
  case (Add v t)
  then show ?thesis by (simp add: add_lowpass)
next
  case Reset
  then show ?thesis by (simp add: reset_def)
next
  case ResetIntegral
  then show ?thesis by (simp add: resetIntegral_def)
next
  case (SetEmaAlpha c)
  then show ?thesis by (simp add: setEmaAlpha_def)
next
  case (SetDerivativePeriodMs p)
  then show ?thesis by (simp add: setDerivativePeriodMs_def)
next
  case (SetIsEmaUseForDerivative b)
  then show ?thesis by (simp add: setIsEmaUseForDerivative_def)
next
  case (SetDerivativeFilterAlpha c)
  then show ?thesis by (simp add: setDerivativeFilterAlpha_def)
next
  case (SetLowpassAlpha c)
  then show ?thesis by (simp add: setLowpassAlpha_def)
next
  case GetMin
  then show ?thesis by (simp add: getMin_def refresh_lowpass Let_def)
next
  case GetMax
  then show ?thesis by (simp add: getMax_def refresh_lowpass Let_def)
next
  case GetRange
  then show ?thesis by (simp add: getRange_def refresh_lowpass Let_def)
qed

lemma run_lowpass:
  "\<exists>b. run N (s\<lparr>alphaLowpass_m := a\<rparr>) ops = (run N s ops)\<lparr>alphaLowpass_m := b\<rparr>"
proof (induction ops arbitrary: s a)
  case Nil
  show ?case by (auto simp: run_def)
next
  case (Cons x ops)
  obtain b where b: "exec N (s\<lparr>alphaLowpass_m := a\<rparr>) x = (exec N s x)\<lparr>alphaLowpass_m := b\<rparr>"
    using exec_lowpass [where s = s and a = a and x = x and N = N] by blast
  from Cons.IH [where s = "exec N s x" and a = b] show ?case
    by (simp add: run_def b)
qed

lemma observe_lowpass: "observe N (s\<lparr>alphaLowpass_m := a\<rparr>) = observe N s"
proof -
  have m: "getMean (s\<lparr>alphaLowpass_m := a\<rparr>) = getMean s"
    by (simp add: getMean_def)
  have v: "getVariance (s\<lparr>alphaLowpass_m := a\<rparr>) = getVariance s"
    by (simp add: getVariance_def m)
  have d: "getStdDev (s\<lparr>alphaLowpass_m := a\<rparr>) = getStdDev s"
    by (simp add: getStdDev_def v)
  have c: "getCoefficientOfVariation (s\<lparr>alphaLowpass_m := a\<rparr>) = getCoefficientOfVariation s"
    by (simp add: getCoefficientOfVariation_def m d Let_def)
  have o: "isOutlier (s\<lparr>alphaLowpass_m := a\<rparr>) = isOutlier s"
    by (intro ext) (simp add: isOutlier_def m d Let_def)
  have st: "isStable N (s\<lparr>alphaLowpass_m := a\<rparr>) = isStable N s"
    by (intro ext) (simp add: isStable_def d)
  have q: "fst (getMin (s\<lparr>alphaLowpass_m := a\<rparr>)) = fst (getMin s)"
    "fst (getMax (s\<lparr>alphaLowpass_m := a\<rparr>)) = fst (getMax s)"
    "fst (getRange (s\<lparr>alphaLowpass_m := a\<rparr>)) = fst (getRange s)"
    by (simp_all add: getMin_def getMax_def getRange_def refresh_lowpass Let_def)
  show ?thesis
    unfolding observe_def m v d c o st q
    by (simp add: getCount_def getSum_def getEma_def getSma_def m getDerivative_def
        getDerivativeFiltered_def getIntegral_def isFull_def isEmpty_def getLastValue_def
        getLastTime_def getBuffer_def)
qed

section \<open>The window invariant\<close>

text \<open>Windows of a growing list.\<close>

lemma window_short: "length xs \<le> N \<Longrightarrow> window N xs = xs"
  by (simp add: window_def)

lemma length_window: "length (window N xs) = min N (length xs)"
  by (simp add: window_def)

lemma window_snoc_short: "length xs < N \<Longrightarrow> window N (xs @ [v]) = xs @ [v]"
  by (simp add: window_def)

lemma window_snoc_full:
  assumes "N \<le> length xs" and "0 < N"
  shows "window N (xs @ [v]) = tl (window N xs) @ [v]"
proof -
  have "drop (Suc (length xs) - N) xs = tl (drop (length xs - N) xs)"
    using assms by (simp add: drop_Suc Suc_diff_le tl_drop)
  then show ?thesis
    using assms by (simp add: window_def)
qed

lemma window_nonempty:
  assumes "0 < N" and "xs \<noteq> []"
  shows "window N xs \<noteq> []"
proof -
  have "0 < length xs" using assms(2) by simp
  then have "length xs - N < length xs" using assms(1) by arith
  then show ?thesis by (simp add: window_def)
qed


text \<open>\<open>add\<close> keeps the invariant: the shape of the buffer.\<close>

lemma tracks_add_shape:
  assumes "tracks N s h" and "0 < N"
  shows "length (buffer_m (add N s v t)) = N"
    and "count_m (add N s v t) = min N (length (h @ [v]))"
    and "index_m (add N s v t) = length (h @ [v]) mod N"
proof -
  from assms have l: "length (buffer_m s) = N" and c: "count_m s = min N (length h)"
    and i: "index_m s = length h mod N"
    by (simp_all add: tracks_def)
  show "length (buffer_m (add N s v t)) = N"
    by (simp add: before_rate_store l)
  show "count_m (add N s v t) = min N (length (h @ [v]))"
    using c by (simp add: min_def)
  have "index_m s < N" using i assms(2) by simp
  then show "index_m (add N s v t) = length (h @ [v]) mod N"
    using i by (auto simp: mod_Suc)
qed

text \<open>In a full buffer the slot at the write index holds the oldest resident sample.\<close>

lemma full_oldest:
  assumes "tracks N s h" and "0 < N" and "N \<le> length h"
  shows "window N h = buffer_m s ! index_m s # drop (Suc (index_m s)) (buffer_m s) @ take (index_m s) (buffer_m s)"
proof -
  from assms have l: "length (buffer_m s) = N" and c: "count_m s = N"
    and i: "index_m s = length h mod N"
    and ch: "chrono s = window N h"
    by (simp_all add: tracks_def)
  have "index_m s < length (buffer_m s)" using i l assms(2) by simp
  then have "drop (index_m s) (buffer_m s) = buffer_m s ! index_m s # drop (Suc (index_m s)) (buffer_m s)"
    by (simp add: Cons_nth_drop_Suc)
  then show ?thesis
    using ch c l by (simp add: chrono_def)
qed

lemma tracks_add_chrono:
  assumes "tracks N s h" and "0 < N"
  shows "chrono (add N s v t) = window N (h @ [v])"
proof (cases "length h < N")
  case True
  from assms have l: "length (buffer_m s) = N" and c: "count_m s = length h"
    and i: "index_m s = length h"
    and ch: "chrono s = window N h"
    using True by (simp_all add: tracks_def)
  have h: "take (length h) (buffer_m s) = h"
    using ch c l True by (simp add: chrono_def window_short)
  have "take (Suc (length h)) ((buffer_m s)[length h := v]) = h @ [v]"
    using l True h by (simp add: take_Suc_conv_app_nth)
  then show ?thesis
    using l c i True by (auto simp: chrono_def before_rate_store window_snoc_short)
next
  case False
  then have full: "N \<le> length h" by simp
  from assms have l: "length (buffer_m s) = N" and c: "count_m s = N"
    and i: "index_m s = length h mod N"
    using full by (simp_all add: tracks_def)
  have il: "index_m s < N" using i assms(2) by simp
  note w = full_oldest [OF assms full]
  have w': "window N (h @ [v]) = drop (Suc (index_m s)) (buffer_m s) @ take (index_m s) (buffer_m s) @ [v]"
    using w by (simp add: window_snoc_full [OF full assms(2)])
  show ?thesis
  proof (cases "N \<le> index_m s + 1")
    case True
    then have e: "Suc (index_m s) = N" using il by simp
    have "(buffer_m s)[index_m s := v] = take (index_m s) (buffer_m s) @ [v]"
      using l e il by (simp add: upd_conv_take_nth_drop)
    then show ?thesis
      using True l c e w' by (simp add: chrono_def before_rate_store)
  next
    case False
    then have "Suc (index_m s) < N" by simp
    then show ?thesis
      using False l c w' il by (simp add: chrono_def before_rate_store take_Suc_conv_app_nth)
  qed
qed

text \<open>\<open>add\<close> keeps the invariant: the cached extrema, unless the stale flag is set.\<close>

lemma Min_snoc: "xs \<noteq> [] \<Longrightarrow> Min (set (xs @ [v])) = min v (Min (set xs))"
  by simp

lemma Max_snoc: "xs \<noteq> [] \<Longrightarrow> Max (set (xs @ [v])) = max v (Max (set xs))"
  by simp

lemma Min_drop_head:
  assumes "xs \<noteq> []" and "x \<noteq> Min (set (x # xs))"
  shows "Min (set xs) = Min (set (x # xs))"
  using assms by (simp add: min_def split: if_splits)

lemma Max_drop_head:
  assumes "xs \<noteq> []" and "x \<noteq> Max (set (x # xs))"
  shows "Max (set xs) = Max (set (x # xs))"
  using assms by (simp add: max_def split: if_splits)

lemma keep_extrema:
  assumes "(if count_m s = N then N else count_m s + 1) \<noteq> 1"
    and "\<not> evicts_extremum N s" and "\<not> needRecalcMinMax_m s"
  shows "\<not> needRecalcMinMax_m (add N s v t)"
    and "minVal_m (add N s v t) = min v (minVal_m s)"
    and "maxVal_m (add N s v t) = max v (maxVal_m s)"
  using assms by (simp_all add: before_rate_minmax min_def max_def)

lemma first_extrema:
  assumes "(if count_m s = N then N else count_m s + 1) = 1"
  shows "\<not> needRecalcMinMax_m (add N s v t)"
    and "minVal_m (add N s v t) = v"
    and "maxVal_m (add N s v t) = v"
  using assms by (simp_all add: before_rate_minmax)

lemma stale_extrema:
  assumes "(if count_m s = N then N else count_m s + 1) \<noteq> 1"
    and "evicts_extremum N s \<or> needRecalcMinMax_m s"
  shows "needRecalcMinMax_m (add N s v t)"
  using assms by (simp add: before_rate_minmax)

lemma tracks_add_minmax:
  assumes "tracks N s h" and "0 < N"
  shows "needRecalcMinMax_m (add N s v t) \<or>
         (minVal_m (add N s v t) = Min (set (window N (h @ [v]))) \<and>
          maxVal_m (add N s v t) = Max (set (window N (h @ [v]))))"
proof (cases "length h < N")
  case short: True
  from assms have c: "count_m s = length h"
    and mm: "needRecalcMinMax_m s \<or> h = [] \<or>
        (minVal_m s = Min (set h) \<and> maxVal_m s = Max (set h))"
    using short by (simp_all add: tracks_def window_short)
  have ne: "\<not> evicts_extremum N s" using c short by (simp add: evicts_extremum_def)
  have w': "window N (h @ [v]) = h @ [v]" using short by (rule window_snoc_short)
  show ?thesis
  proof (cases "h = []")
    case True
    then have "(if count_m s = N then N else count_m s + 1) = 1"
      using c short by simp
    from first_extrema [OF this, of v t] show ?thesis unfolding w' using True by simp
  next
    case False
    then have n1: "(if count_m s = N then N else count_m s + 1) \<noteq> 1" using c short by simp
    show ?thesis
    proof (cases "needRecalcMinMax_m s")
      case True
      then show ?thesis using stale_extrema [OF n1] by simp
    next
      case fresh: False
      then have "minVal_m s = Min (set h)" "maxVal_m s = Max (set h)"
        using mm False by simp_all
      then show ?thesis
        using keep_extrema [OF n1 ne fresh] False by (simp add: w')
    qed
  qed
next
  case False
  then have full: "N \<le> length h" by simp
  then have hne: "h \<noteq> []" using assms(2) by auto
  from assms have c: "count_m s = N"
    and mm: "needRecalcMinMax_m s \<or>
        (minVal_m s = Min (set (window N h)) \<and> maxVal_m s = Max (set (window N h)))"
    using full hne by (simp_all add: tracks_def)
  define old where "old = buffer_m s ! index_m s"
  define rest where "rest = drop (Suc (index_m s)) (buffer_m s) @ take (index_m s) (buffer_m s)"
  have w: "window N h = old # rest"
    using full_oldest [OF assms full] by (simp add: old_def rest_def)
  have w': "window N (h @ [v]) = rest @ [v]"
    using w by (simp add: window_snoc_full [OF full assms(2)])
  have "length (window N h) = N" using full by (simp add: length_window)
  then have lr: "Suc (length rest) = N" using w by simp
  show ?thesis
  proof (cases "N = 1")
    case True
    then have r: "rest = []" using lr by simp
    have "(if count_m s = N then N else count_m s + 1) = 1" using c True by simp
    from first_extrema [OF this] show ?thesis by (simp add: w' r)
  next
    case False
    then have rne: "rest \<noteq> []" using lr by auto
    have n1: "(if count_m s = N then N else count_m s + 1) \<noteq> 1" using c False by simp
    show ?thesis
    proof (cases "evicts_extremum N s \<or> needRecalcMinMax_m s")
      case True
      then show ?thesis using stale_extrema [OF n1] by simp
    next
      case keep: False
      then have a: "old \<noteq> minVal_m s" "old \<noteq> maxVal_m s"
        using c by (simp_all add: evicts_extremum_def old_def)
      have b: "minVal_m s = Min (set (old # rest))" "maxVal_m s = Max (set (old # rest))"
        using keep mm w by simp_all
      have "Min (set rest) = minVal_m s" "Max (set rest) = maxVal_m s"
        using Min_drop_head [OF rne, of old] Max_drop_head [OF rne, of old] a b by simp_all
      then show ?thesis
        using keep_extrema [of s N v t] n1 keep rne by (simp add: w')
    qed
  qed
qed

lemma tracks_add:
  assumes "tracks N s h" and "0 < N"
  shows "tracks N (add N s v t) (h @ [v])"
  unfolding tracks_def
  using tracks_add_shape [OF assms, of v t] tracks_add_chrono [OF assms, of v t]
    tracks_add_minmax [OF assms, of v t]
  by blast

text \<open>The rescan computes the extrema of the resident samples.\<close>

lemma Min_insert_insert:
  fixes a b :: real
  assumes "finite S"
  shows "Min (insert a (insert b S)) = Min (insert (min b a) S)"
proof (cases "S = {}")
  case True
  then show ?thesis by (simp add: min.commute)
next
  case False
  then show ?thesis using assms by (simp add: min.assoc min.left_commute min.commute)
qed

lemma Max_insert_insert:
  fixes a b :: real
  assumes "finite S"
  shows "Max (insert a (insert b S)) = Max (insert (max b a) S)"
proof (cases "S = {}")
  case True
  then show ?thesis by (simp add: max.commute)
next
  case False
  then show ?thesis using assms by (simp add: max.assoc max.left_commute max.commute)
qed

lemma if_less_min: "(if b < a then b else a) = min b (a::real)"
  by (simp add: min_def)

lemma if_greater_max: "(if b > a then b else a) = max b (a::real)"
  by (simp add: max_def)

lemma recalc_loop_correct:
  "i \<le> cnt \<Longrightarrow> cnt \<le> length buf \<Longrightarrow>
   recalc_loop buf cnt i mn mx =
     (Min (insert mn (set (drop i (take cnt buf)))), Max (insert mx (set (drop i (take cnt buf)))))"
proof (induction buf cnt i mn mx rule: recalc_loop.induct)
  case (1 buf cnt i mn mx)
  show ?case
  proof (cases "i < cnt")
    case True
    then have d: "drop i (take cnt buf) = buf ! i # drop (Suc i) (take cnt buf)"
      using "1.prems" by (simp add: Cons_nth_drop_Suc [symmetric])
    have "recalc_loop buf cnt i mn mx =
            recalc_loop buf cnt (Suc i) (if buf ! i < mn then buf ! i else mn)
              (if buf ! i > mx then buf ! i else mx)"
      using True by (subst recalc_loop.simps) simp
    also have "\<dots> = (Min (insert (if buf ! i < mn then buf ! i else mn) (set (drop (Suc i) (take cnt buf)))),
                     Max (insert (if buf ! i > mx then buf ! i else mx) (set (drop (Suc i) (take cnt buf)))))"
      using "1.IH" [OF True] True "1.prems" by simp
    also have "\<dots> = (Min (insert mn (set (drop i (take cnt buf)))), Max (insert mx (set (drop i (take cnt buf)))))"
      unfolding d if_less_min if_greater_max
      by (simp only: list.set Min_insert_insert [OF finite_set] Max_insert_insert [OF finite_set])
    finally show ?thesis .
  next
    case False
    then have "drop i (take cnt buf) = []" by simp
    then show ?thesis using False by (subst recalc_loop.simps) simp
  qed
qed

lemma recalculateMinMax_correct:
  assumes "0 < count_m s" and "count_m s \<le> length (buffer_m s)"
  shows "minVal_m (recalculateMinMax s) = Min (set (resident s))"
    and "maxVal_m (recalculateMinMax s) = Max (set (resident s))"
proof -
  have r: "resident s = buffer_m s ! 0 # drop 1 (resident s)"
  proof -
    have "0 < length (resident s)" using assms by (simp add: resident_def)
    from Cons_nth_drop_Suc [OF this] have "resident s = resident s ! 0 # drop 1 (resident s)"
      by simp
    moreover have "resident s ! 0 = buffer_m s ! 0" using assms by (simp add: resident_def)
    ultimately show ?thesis by simp
  qed
  have l: "recalc_loop (buffer_m s) (count_m s) 1 (buffer_m s ! 0) (buffer_m s ! 0) =
        (Min (insert (buffer_m s ! 0) (set (drop 1 (resident s)))),
         Max (insert (buffer_m s ! 0) (set (drop 1 (resident s)))))"
    using assms by (simp add: recalc_loop_correct resident_def)
  have s: "insert (buffer_m s ! 0) (set (drop 1 (resident s))) = set (resident s)"
    by (subst (2) r) simp
  show "minVal_m (recalculateMinMax s) = Min (set (resident s))"
    using assms(1) l s by (simp add: recalculateMinMax_def)
  show "maxVal_m (recalculateMinMax s) = Max (set (resident s))"
    using assms(1) l s by (simp add: recalculateMinMax_def)
qed

lemma recalculateMinMax_frame:
  "recalculateMinMax s = s\<lparr>minVal_m := minVal_m (recalculateMinMax s),
       maxVal_m := maxVal_m (recalculateMinMax s), needRecalcMinMax_m := False\<rparr>"
  by (simp add: recalculateMinMax_def split: prod.splits)

text \<open>The resident samples are the window, up to their order in the buffer.\<close>

lemma tracks_resident_mset:
  assumes "tracks N s h"
  shows "mset (resident s) = mset (window N h)"
proof -
  have ch: "chrono s = window N h" and l: "count_m s \<le> length (buffer_m s)"
    using assms by (simp_all add: tracks_def)
  have "mset (resident s) = mset (chrono s)"
  proof (cases "count_m s < length (buffer_m s)")
    case True
    then show ?thesis by (simp add: chrono_def resident_def)
  next
    case False
    then have "resident s = buffer_m s" using l by (simp add: resident_def)
    moreover have "mset (take (index_m s) (buffer_m s) @ drop (index_m s) (buffer_m s)) = mset (buffer_m s)"
      by (simp only: append_take_drop_id)
    then have "mset (take (index_m s) (buffer_m s)) + mset (drop (index_m s) (buffer_m s)) = mset (buffer_m s)"
      by (simp only: mset_append)
    then have "mset (chrono s) = mset (buffer_m s)"
      using False by (simp add: chrono_def union_commute)
    ultimately show ?thesis by simp
  qed
  then show ?thesis by (simp add: ch)
qed



text \<open>Every operation keeps the invariant.\<close>

lemma tracks_cong:
  assumes "tracks N s h"
    and "buffer_m s' = buffer_m s" "count_m s' = count_m s" "index_m s' = index_m s"
    and "sum_m s' = sum_m s" "sumSq_m s' = sumSq_m s"
    and "minVal_m s' = minVal_m s" "maxVal_m s' = maxVal_m s"
    and "needRecalcMinMax_m s' = needRecalcMinMax_m s"
  shows "tracks N s' h"
proof -
  have "chrono s' = chrono s" using assms(2-4) by (simp add: chrono_def)
  then show ?thesis using assms unfolding tracks_def by metis
qed

lemma tracks_fresh_extrema:
  assumes "tracks N s h"
    and "h \<noteq> [] \<Longrightarrow> mn = Min (set (window N h))"
    and "h \<noteq> [] \<Longrightarrow> mx = Max (set (window N h))"
  shows "tracks N (s\<lparr>minVal_m := mn, maxVal_m := mx, needRecalcMinMax_m := False\<rparr>) h"
proof -
  have "chrono (s\<lparr>minVal_m := mn, maxVal_m := mx, needRecalcMinMax_m := False\<rparr>) = chrono s"
    by (simp add: chrono_def)
  then show ?thesis using assms unfolding tracks_def by auto
qed

lemma tracks_refresh:
  assumes "tracks N s h" and "0 < N"
  shows "tracks N (refresh s) h"
    and "h \<noteq> [] \<Longrightarrow> minVal_m (refresh s) = Min (set (window N h))"
    and "h \<noteq> [] \<Longrightarrow> maxVal_m (refresh s) = Max (set (window N h))"
proof -
  have set_eq: "set (resident s) = set (window N h)"
    using tracks_resident_mset [OF assms(1)] by (rule mset_eq_setD)
  have cnt: "count_m s \<le> length (buffer_m s)" using assms(1) by (simp add: tracks_def)
  have pos: "0 < count_m s" if "h \<noteq> []" using that assms by (simp add: tracks_def)
  have r: "h \<noteq> [] \<Longrightarrow> minVal_m (recalculateMinMax s) = Min (set (window N h))"
    "h \<noteq> [] \<Longrightarrow> maxVal_m (recalculateMinMax s) = Max (set (window N h))"
    using recalculateMinMax_correct [OF pos cnt] set_eq by simp_all
  show "h \<noteq> [] \<Longrightarrow> minVal_m (refresh s) = Min (set (window N h))"
    using r assms(1) by (auto simp: refresh_def tracks_def)
  show "h \<noteq> [] \<Longrightarrow> maxVal_m (refresh s) = Max (set (window N h))"
    using r assms(1) by (auto simp: refresh_def tracks_def)
  show "tracks N (refresh s) h"
  proof (cases "needRecalcMinMax_m s")
    case False
    then show ?thesis using assms(1) by (simp add: refresh_def)
  next
    case True
    have "tracks N (s\<lparr>minVal_m := minVal_m (recalculateMinMax s),
       maxVal_m := maxVal_m (recalculateMinMax s), needRecalcMinMax_m := False\<rparr>) h"
      using assms(1) r by (rule tracks_fresh_extrema)
    then show ?thesis using True recalculateMinMax_frame [of s] by (simp add: refresh_def)
  qed
qed

lemma tracks_exec:
  assumes "tracks N s h" and "0 < N"
  shows "tracks N (exec N s x) (track h x)"
proof (cases x)
  case (Add v t)
  then show ?thesis using tracks_add [OF assms] by simp
next
  case Reset
  then show ?thesis using assms by (simp add: reset_def tracks_def chrono_def window_def)
next
  case ResetIntegral
  then show ?thesis using assms(1) by (auto intro: tracks_cong simp: resetIntegral_def)
next
  case (SetEmaAlpha a)
  then show ?thesis using assms(1) by (auto intro: tracks_cong simp: setEmaAlpha_def)
next
  case (SetDerivativePeriodMs p)
  then show ?thesis using assms(1) by (auto intro: tracks_cong simp: setDerivativePeriodMs_def)
next
  case (SetIsEmaUseForDerivative b)
  then show ?thesis using assms(1) by (auto intro: tracks_cong simp: setIsEmaUseForDerivative_def)
next
  case (SetDerivativeFilterAlpha a)
  then show ?thesis using assms(1) by (auto intro: tracks_cong simp: setDerivativeFilterAlpha_def)
next
  case (SetLowpassAlpha a)
  then show ?thesis using assms(1) by (auto intro: tracks_cong simp: setLowpassAlpha_def)
next
  case GetMin
  then show ?thesis using tracks_refresh(1) [OF assms] by (simp add: getMin_def Let_def)
next
  case GetMax
  then show ?thesis using tracks_refresh(1) [OF assms] by (simp add: getMax_def Let_def)
next
  case GetRange
  then show ?thesis using tracks_refresh(1) [OF assms] by (simp add: getRange_def Let_def)
qed

lemma tracks_foldl:
  assumes "0 < N"
  shows "tracks N s h \<Longrightarrow> tracks N (foldl (exec N) s ops) (foldl track h ops)"
proof (induction ops arbitrary: s h)
  case Nil
  then show ?case by simp
next
  case (Cons x ops)
  from Cons.IH [OF tracks_exec [OF Cons.prems assms]] show ?case by simp
qed

lemma tracks_init:
  assumes "0 < N" and "length (st_buffer st) = N"
  shows "tracks N (SignalProcessor st) []"
  using assms by (simp add: tracks_def SignalProcessor_def chrono_def window_def)

lemma tracks_run:
  assumes "valid_capacity N" and "length (st_buffer st) = N"
  shows "tracks N (run N (SignalProcessor st) ops) (samples ops)"
proof -
  have "0 < N" using assms(1) by (simp add: valid_capacity_def)
  from tracks_foldl [OF this tracks_init [OF this assms(2)]]
  show ?thesis by (simp add: run_def samples_def)
qed

section \<open>The accumulators\<close>













section \<open>The buffer count\<close>

text \<open>The buffer count in terms of the samples added.\<close>

lemma run_count:
  assumes "valid_capacity N" and "length (st_buffer st) = N"
    and "s = run N (SignalProcessor st) ops"
  shows "count_m s = min N (length (samples ops))"
  using tracks_run [OF assms(1,2), of ops] unfolding assms(3) by (simp add: tracks_def)

lemma run_next_count:
  assumes "valid_capacity N" and "length (st_buffer st) = N"
    and "s = run N (SignalProcessor st) ops"
  shows "1 < count_m (add N s v timeMs) \<longleftrightarrow> samples ops \<noteq> []"
    and "count_m (add N s v timeMs) \<le> 2 \<longleftrightarrow> length (samples ops) < 2 \<or> N = 2"
proof -
  have N: "2 \<le> N" using assms(1) by (simp add: valid_capacity_def)
  note c = run_count [OF assms]
  show "1 < count_m (add N s v timeMs) \<longleftrightarrow> samples ops \<noteq> []"
    using c N by (cases "samples ops") (auto simp: min_def)
  show "count_m (add N s v timeMs) \<le> 2 \<longleftrightarrow> length (samples ops) < 2 \<or> N = 2"
    using c N by (auto simp: min_def)
qed

section \<open>The standard deviation\<close>

text \<open>
  \<open>getStdDev\<close> takes the root of the variance as it is: the result is not-a-number exactly
  when the variance is negative.
\<close>

lemma getStdDev_unclamped:
  "getStdDev s = (if getVariance s < 0 then NaN else Finite (sqrt (getVariance s)))"
  by (simp add: getStdDev_def sqrtf_def)

section \<open>The claims\<close>






text \<open>
  Claim C3. A newly constructed processor has all of its state zeroed or defaulted, including
  the minimum derivative period (0, no gating) and the selection flag of the derivative
  input. The constructor sets every scalar member but these two: for the storage
  \<open>ex_stack_storage\<close> of an automatic object the period is 500 and the flag is set after
  construction, and a first sample at 100 ms does not pass the gate, as it does for a static
  object. All other members have the values of the claim (zeros, \<open>alpha\<close> 0.1, 0.2 and 0.1).
\<close>

theorem constructor_keeps_period_and_flag:
  "derivativePeriodMs_m (SignalProcessor ex_stack_storage) = 500 \<and>
   useEmaFilteredValueForDerivation_m (SignalProcessor ex_stack_storage) \<and>
   \<not> rate_gate (SignalProcessor ex_stack_storage) 100 \<and>
   rate_gate (SignalProcessor (static_storage 2)) 100 \<and>
   SignalProcessor ex_stack_storage =
     \<lparr>buffer_m = st_buffer ex_stack_storage, count_m = 0, index_m = 0, sum_m = 0, sumSq_m = 0,
      minVal_m = 0, maxVal_m = 0, needRecalcMinMax_m = False, ema_m = 0,
      lastValue_m = 0, lastTimeMs_m = 0,
      derivativePeriodMs_m = st_derivativePeriodMs ex_stack_storage,
      useEmaFilteredValueForDerivation_m = st_useEmaFilteredValueForDerivation ex_stack_storage,
      derivative_m = 0, derivativeFiltered_m = 0, integrator_m = 0, lastIntegrandValue_m = 0,
      alphaEma_m = 1 / 10, alphaDerivFilter_m = 2 / 10, alphaLowpass_m = 1 / 10\<rparr>"
  by (simp add: SignalProcessor_def ex_stack_storage_def static_storage_def rate_gate_def
      elapsedMs_def)

text \<open>
  Claim C4. The processor provides a low-pass filter output, updated on every sample by a
  recurrence keyed to \<open>lowpassAlpha\<close>. The class has the coefficient and its setter only: no
  operation reads \<open>alphaLowpass_\<close>, so whatever coefficient is configured, every query returns
  the same result after every sequence of operations. No query is a low-pass output.
\<close>

theorem lowpass_alpha_not_observable:
  "observe N (run N (setLowpassAlpha a s) ops) = observe N (run N (setLowpassAlpha b s) ops)"
proof -
  obtain a' where a: "run N (setLowpassAlpha a s) ops = (run N s ops)\<lparr>alphaLowpass_m := a'\<rparr>"
    unfolding setLowpassAlpha_def using run_lowpass by blast
  obtain b' where b: "run N (setLowpassAlpha b s) ops = (run N s ops)\<lparr>alphaLowpass_m := b'\<rparr>"
    unfolding setLowpassAlpha_def using run_lowpass by blast
  show ?thesis by (simp add: a b observe_lowpass)
qed



text \<open>
  Claim C6. A call that passes the gate sets the raw derivative to
  \<open>(selected - lastSelected) / dt\<close> in the numeric precision of the sample, where the selected
  value is the EMA output when the flag is set and the raw sample otherwise. The source takes
  the selected value through the local \<open>int val\<close>. A static \<open>SignalProcessor<float, 4>\<close> that
  receives \<open>add(0.5f, 1000)\<close> as its first sample computes the derivative 0 and remembers the
  last value 0, where the claim gives \<open>(0.5 - 0) / 1 = 0.5\<close>. With the flag set and
  \<open>alpha = 1/2\<close>, the samples 10 at 1000 ms and 15 at 2000 ms give the EMA outputs 10 and 12.5
  and the derivative \<open>(12 - 10) / 1 = 2\<close>, where the claim gives \<open>(12.5 - 10) / 1 = 2.5\<close>.
\<close>

theorem derivative_truncates_sample:
  "(rate_gate ex_static4 1000 \<and>
    \<not> useEmaFilteredValueForDerivation_m ex_static4 \<and>
    derivative_m (add 4 ex_static4 (1 / 2) 1000) = 0 \<and>
    getLastValue (add 4 ex_static4 (1 / 2) 1000) = 0 \<and>
    (1 / 2 - lastValue_m ex_static4) / (real (elapsedMs ex_static4 1000) / 1000) = 1 / 2) \<and>
   (rate_gate ex_ema_deriv 2000 \<and>
    useEmaFilteredValueForDerivation_m ex_ema_deriv \<and>
    ema_m ex_ema_deriv = 10 \<and> ema_m (add 4 ex_ema_deriv 15 2000) = 25 / 2 \<and>
    derivative_m (add 4 ex_ema_deriv 15 2000) = 2 \<and>
    (ema_m (add 4 ex_ema_deriv 15 2000) - ema_m ex_ema_deriv)
      / (real (elapsedMs ex_ema_deriv 2000) / 1000) = 5 / 2)"
proof -
  have a: "rate_gate ex_static4 1000 \<and>
    \<not> useEmaFilteredValueForDerivation_m ex_static4 \<and>
    derivative_m (add 4 ex_static4 (1 / 2) 1000) = 0 \<and>
    getLastValue (add 4 ex_static4 (1 / 2) 1000) = 0 \<and>
    (1 / 2 - lastValue_m ex_static4) / (real (elapsedMs ex_static4 1000) / 1000) = 1 / 2"
    unfolding ex_static4_def static_storage_4
    by (simp add: eval_defs getLastValue_def)
  have b: "rate_gate ex_ema_deriv 2000 \<and>
    useEmaFilteredValueForDerivation_m ex_ema_deriv \<and>
    ema_m ex_ema_deriv = 10 \<and> ema_m (add 4 ex_ema_deriv 15 2000) = 25 / 2 \<and>
    derivative_m (add 4 ex_ema_deriv 15 2000) = 2 \<and>
    (ema_m (add 4 ex_ema_deriv 15 2000) - ema_m ex_ema_deriv)
      / (real (elapsedMs ex_ema_deriv 2000) / 1000) = 5 / 2"
    unfolding ex_ema_deriv_eq
    by (simp add: eval_defs)
  show ?thesis by (rule conjI [OF a b])
qed

text \<open>
  Claim C7, amended. Starting from the second sample added since the construction or the
  last \<open>reset\<close>, whether or not the samples before it reached the rate module, each call that
  passes the gate adds \<open>0.5 * (lastIntegrandValue_ + value) * dt\<close> to the integral, with \<open>dt\<close>
  the elapsed time in seconds (the source tests \<open>count_ > 1\<close>). The integrand is the raw
  sample, whatever the selection flag of the derivative says. The first sample added adds
  nothing. Every call that passes the gate then stores the raw sample as the previous
  integrand.
\<close>

theorem integral_of_raw_samples:
  assumes "valid_capacity N" and "length (st_buffer st) = N"
    and "s = run N (SignalProcessor st) ops" and "rate_gate s timeMs"
  shows "integrator_m (add N s v timeMs) =
           (if samples ops = [] then integrator_m s
            else integrator_m s
                 + 0.5 * (lastIntegrandValue_m s + v) * (real (elapsedMs s timeMs) / 1000)) \<and>
         lastIntegrandValue_m (add N s v timeMs) = v \<and>
         (1 < count_m (add N s v timeMs) \<longleftrightarrow> samples ops \<noteq> [])"
  using assms(4) run_next_count(1) [OF assms(1-3), of v timeMs]
  by (simp add: add_rate_fields)

theorem integral_of_raw_samples_witness:
  "valid_capacity 4 \<and> length (st_buffer (static_storage 4)) = 4 \<and>
   ex_ema_deriv = run 4 (SignalProcessor (static_storage 4)) ex_ema_ops \<and>
   rate_gate ex_ema_deriv 2000 \<and> samples ex_ema_ops = [10] \<and>
   integrator_m (add 4 ex_ema_deriv 20 2000) = 15 \<and>
   lastIntegrandValue_m (add 4 ex_ema_deriv 20 2000) = 20"
proof -
  have v: "valid_capacity 4" by (simp add: valid_capacity_def)
  have l: "length (st_buffer (static_storage 4)) = 4" by (simp add: static_storage_def)
  have g: "rate_gate ex_ema_deriv 2000"
    unfolding ex_ema_deriv_eq by (simp add: rate_gate_def elapsedMs_def)
  have e: "elapsedMs ex_ema_deriv 2000 = 1000"
    unfolding ex_ema_deriv_eq by (simp add: elapsedMs_def)
  have f: "integrator_m ex_ema_deriv = 0" "lastIntegrandValue_m ex_ema_deriv = 10"
    unfolding ex_ema_deriv_eq by simp_all
  have h: "samples ex_ema_ops = [10]" by (simp add: samples_def ex_ema_ops_def)
  show ?thesis
    using integral_of_raw_samples [OF v l ex_ema_run g, of 20] v l g ex_ema_run
    by (simp add: e f h)
qed

text \<open>
  Claim C7 as stated takes the integrand from the selected input signal. With the flag set
  and \<open>alpha = 1/2\<close>, the samples 10 at 1000 ms and 20 at 2000 ms give the EMA outputs 10 and
  15: the second sample to reach the rate module should add \<open>0.5 * (10 + 15) * 1 = 12.5\<close>,
  and the source adds \<open>0.5 * (10 + 20) * 1 = 15\<close>. The claim also starts the integral at the
  second sample that reaches the rate module: after two samples without a time stamp, the
  sample 5 at 1000 ms is the first to reach it, and the source already adds
  \<open>0.5 * (0 + 5) * 1 = 2.5\<close>.
\<close>

theorem integral_integrand_counterexample:
  "(useEmaFilteredValueForDerivation_m ex_ema_deriv \<and> rate_gate ex_ema_deriv 2000 \<and>
    ema_m ex_ema_deriv = 10 \<and> ema_m (add 4 ex_ema_deriv 20 2000) = 15 \<and>
    integrator_m ex_ema_deriv = 0 \<and>
    integrator_m (add 4 ex_ema_deriv 20 2000) = 15 \<and>
    integrator_m ex_ema_deriv
      + 0.5 * (ema_m ex_ema_deriv + ema_m (add 4 ex_ema_deriv 20 2000))
            * (real (elapsedMs ex_ema_deriv 2000) / 1000) = 25 / 2 \<and>
    integrator_m (add 4 ex_ema_deriv 20 2000) \<noteq>
      integrator_m ex_ema_deriv
      + 0.5 * (ema_m ex_ema_deriv + ema_m (add 4 ex_ema_deriv 20 2000))
            * (real (elapsedMs ex_ema_deriv 2000) / 1000)) \<and>
   (rate_state ex_untimed = (0, 0, 0, 0, 0, 0) \<and> rate_gate ex_untimed 1000 \<and>
    integrator_m (add 4 ex_untimed 5 1000) = 5 / 2 \<and>
    integrator_m (add 4 ex_untimed 5 1000) \<noteq> integrator_m ex_untimed)"
proof -
  have a: "useEmaFilteredValueForDerivation_m ex_ema_deriv \<and> rate_gate ex_ema_deriv 2000 \<and>
    ema_m ex_ema_deriv = 10 \<and> ema_m (add 4 ex_ema_deriv 20 2000) = 15 \<and>
    integrator_m ex_ema_deriv = 0 \<and>
    integrator_m (add 4 ex_ema_deriv 20 2000) = 15 \<and>
    integrator_m ex_ema_deriv
      + 0.5 * (ema_m ex_ema_deriv + ema_m (add 4 ex_ema_deriv 20 2000))
            * (real (elapsedMs ex_ema_deriv 2000) / 1000) = 25 / 2 \<and>
    integrator_m (add 4 ex_ema_deriv 20 2000) \<noteq>
      integrator_m ex_ema_deriv
      + 0.5 * (ema_m ex_ema_deriv + ema_m (add 4 ex_ema_deriv 20 2000))
            * (real (elapsedMs ex_ema_deriv 2000) / 1000)"
    unfolding ex_ema_deriv_eq by (simp add: eval_defs)
  have b: "rate_state ex_untimed = (0, 0, 0, 0, 0, 0) \<and> rate_gate ex_untimed 1000 \<and>
    integrator_m (add 4 ex_untimed 5 1000) = 5 / 2 \<and>
    integrator_m (add 4 ex_untimed 5 1000) \<noteq> integrator_m ex_untimed"
    unfolding ex_untimed_eq by (simp add: eval_defs rate_state_def)
  show ?thesis by (rule conjI [OF a b])
qed

text \<open>
  Claim C8, amended. A call that passes the gate sets the smoothed derivative to the raw
  derivative when its sample is the first or the second sample added since the construction
  or the last \<open>reset\<close>, whether or not the sample before it reached the rate module, or when
  the capacity is 2 (the source tests \<open>count_ \<le> 2\<close>). For every later sample it sets it to
  \<open>alphaDerivFilter * rawDerivative + (1 - alphaDerivFilter) * previousSmoothed\<close>.
\<close>

theorem smoothed_derivative_by_count:
  assumes "valid_capacity N" and "length (st_buffer st) = N"
    and "s = run N (SignalProcessor st) ops" and "rate_gate s timeMs"
  shows "derivativeFiltered_m (add N s v timeMs) =
           (if length (samples ops) < 2 \<or> N = 2 then derivative_m (add N s v timeMs)
            else alphaDerivFilter_m s * derivative_m (add N s v timeMs)
                 + (1 - alphaDerivFilter_m s) * derivativeFiltered_m s) \<and>
         (count_m (add N s v timeMs) \<le> 2 \<longleftrightarrow> length (samples ops) < 2 \<or> N = 2)"
  using assms(4) run_next_count(2) [OF assms(1-3), of v timeMs]
  by (simp add: add_rate_fields)

theorem smoothed_derivative_by_count_witness:
  "valid_capacity 4 \<and> length (st_buffer (static_storage 4)) = 4 \<and>
   ex_untimed = run 4 (SignalProcessor (static_storage 4)) ex_untimed_ops \<and>
   rate_gate ex_untimed 1000 \<and> samples ex_untimed_ops = [1, 2] \<and>
   derivativeFiltered_m (add 4 ex_untimed 5 1000) = 5 / 2"
proof -
  have v: "valid_capacity 4" by (simp add: valid_capacity_def)
  have l: "length (st_buffer (static_storage 4)) = 4" by (simp add: static_storage_def)
  have g: "rate_gate ex_untimed 1000"
    unfolding ex_untimed_eq by (simp add: rate_gate_def elapsedMs_def)
  have d: "derivative_m (add 4 ex_untimed 5 1000) = 5"
    unfolding ex_untimed_eq by (simp add: eval_defs)
  have f: "alphaDerivFilter_m ex_untimed = 1 / 2" "derivativeFiltered_m ex_untimed = 0"
    unfolding ex_untimed_eq by simp_all
  have h: "samples ex_untimed_ops = [1, 2]" by (simp add: samples_def ex_untimed_ops_def)
  show ?thesis
    using smoothed_derivative_by_count [OF v l ex_untimed_run g, of 5] v l g ex_untimed_run
    by (simp add: d f h)
qed

text \<open>
  Claim C8 as stated seeds the smoothed derivative with the raw derivative for the first two
  samples that reach the rate module. After two samples without a time stamp, which do not
  reach the module, the sample 5 at 1000 ms is the first to reach it: the raw derivative
  is 5 and the smoothed derivative, with \<open>alpha = 1/2\<close>, is \<open>0.5 * 5 + 0.5 * 0 = 2.5\<close>.
\<close>

theorem smoothed_derivative_seed_counterexample:
  "rate_state ex_untimed = (0, 0, 0, 0, 0, 0) \<and> rate_gate ex_untimed 1000 \<and>
   derivative_m (add 4 ex_untimed 5 1000) = 5 \<and>
   derivativeFiltered_m (add 4 ex_untimed 5 1000) = 5 / 2 \<and>
   derivativeFiltered_m (add 4 ex_untimed 5 1000) \<noteq> derivative_m (add 4 ex_untimed 5 1000)"
  unfolding ex_untimed_eq
  by (simp add: eval_defs rate_state_def)

text \<open>
  Claim C9. \<open>getStdDev()\<close> is the square root of the variance clamped to 0 from below, so
  that it is never not-a-number, also when cancellation makes the computed variance
  slightly negative. The source takes \<open>sqrtf\<close> of \<open>getVariance()\<close> as it is. In the state
  \<open>ex_rounded\<close>, reached by three calls of \<open>add\<close> on a constant signal (the accumulators
  are spelled out in lemma \<open>ex_rounded_binary32\<close>), the variance is negative: the standard
  deviation is not-a-number where the claim gives 0, and \<open>isStable\<close> answers that the
  constant signal is not stable, whatever the bound.
\<close>

theorem getStdDev_NaN_on_constant_signal:
  "buffer_m ex_rounded = [4097, 4097, 4097] \<and> count_m ex_rounded = 3 \<and>
   sum_m ex_rounded = 12291 \<and> sumSq_m ex_rounded = 50356224 \<and>
   sumSq_m ex_rounded =
     binary32 (binary32 (binary32 (0 + binary32 (4097 * 4097)) + binary32 (4097 * 4097))
               + binary32 (4097 * 4097)) \<and>
   getVariance ex_rounded = - 3 / 2 \<and> getStdDev ex_rounded = NaN \<and>
   getStdDev ex_rounded \<noteq> Finite (sqrt (max 0 (getVariance ex_rounded))) \<and>
   \<not> isStable 3 ex_rounded maxStdDev"
proof -
  have v: "getVariance ex_rounded = - 3 / 2"
    by (simp add: getVariance_def getMean_def ex_rounded_fields binary32_values Let_def)
  then have n: "getStdDev ex_rounded = NaN"
    by (simp add: getStdDev_unclamped)
  show ?thesis
    using ex_rounded_binary32(2) by (simp add: v n isStable_def ex_rounded_fields)
qed

text \<open>
  Claim C10. When the time stamp of a call is not 0 and smaller than \<open>lastTimeMs_ > 0\<close>
  (out of order, or after the millisecond counter has wrapped around), the elapsed time is
  \<open>(timeMs - lastTimeMs_) mod 2^32\<close>, that is \<open>2^32 + timeMs - lastTimeMs_\<close>. Whenever this
  exceeds the derivative period, the rate module runs: the derivative is taken over
  \<open>dt = elapsed / 1000\<close> seconds and \<open>lastTimeMs_\<close> becomes \<open>timeMs\<close>.
\<close>

theorem add_wrapped_elapsed_time:
  assumes "0 < lastTimeMs_m s" and "0 < timeMs" and "timeMs < lastTimeMs_m s"
  shows "int (elapsedMs s timeMs) = (uint timeMs - uint (lastTimeMs_m s)) mod 2 ^ 32 \<and>
         elapsedMs s timeMs = 2 ^ 32 + unat timeMs - unat (lastTimeMs_m s) \<and>
         (unat (derivativePeriodMs_m s) < elapsedMs s timeMs \<longrightarrow>
            rate_gate s timeMs \<and>
            lastTimeMs_m (add N s v timeMs) = timeMs \<and>
            lastIntegrandValue_m (add N s v timeMs) = v \<and>
            derivative_m (add N s v timeMs) =
              (real_of_int (float_to_int (if useEmaFilteredValueForDerivation_m s
                                          then ema_m (add N s v timeMs) else v))
               - lastValue_m s) / (real (elapsedMs s timeMs) / 1000))"
proof -
  have g: "rate_gate s timeMs" if "unat (derivativePeriodMs_m s) < elapsedMs s timeMs"
    using that assms(2) by (simp add: rate_gate_def)
  have "elapsedMs s timeMs = 2 ^ 32 + unat timeMs - unat (lastTimeMs_m s)"
    using assms(3) by (rule elapsed_wrap)
  then show ?thesis
    using elapsed_mod [of s timeMs] g
    by (auto simp: add_rate_fields)
qed

theorem add_wrapped_elapsed_time_witness:
  "(0::u32) < lastTimeMs_m ex_wrap \<and> (0::u32) < 704 \<and> 704 < lastTimeMs_m ex_wrap \<and>
   lastTimeMs_m ex_wrap = 4294967000 \<and>
   elapsedMs ex_wrap 704 = 1000 \<and> unat (derivativePeriodMs_m ex_wrap) < elapsedMs ex_wrap 704 \<and>
   lastTimeMs_m (add 4 ex_wrap 5 704) = 704 \<and> derivative_m (add 4 ex_wrap 5 704) = 2"
proof -
  have h: "(0::u32) < lastTimeMs_m ex_wrap" "(0::u32) < 704" "704 < lastTimeMs_m ex_wrap"
    by (simp_all add: ex_wrap_eq)
  have e: "elapsedMs ex_wrap 704 = 1000" by (simp add: elapsedMs_def ex_wrap_eq)
  have p: "unat (derivativePeriodMs_m ex_wrap) < elapsedMs ex_wrap 704"
    by (simp add: e) (simp add: ex_wrap_eq)
  have u: "\<not> useEmaFilteredValueForDerivation_m ex_wrap" "lastValue_m ex_wrap = 3"
    "lastTimeMs_m ex_wrap = 4294967000"
    by (simp_all add: ex_wrap_eq)
  from add_wrapped_elapsed_time [OF h, of 4 5] p
  have "lastTimeMs_m (add 4 ex_wrap 5 704) = 704"
    and "derivative_m (add 4 ex_wrap 5 704) =
              (real_of_int (float_to_int (if useEmaFilteredValueForDerivation_m ex_wrap
                                          then ema_m (add 4 ex_wrap 5 704) else 5))
               - lastValue_m ex_wrap) / (real (elapsedMs ex_wrap 704) / 1000)"
    by blast+
  then show ?thesis
    using h p by (simp add: u e float_to_int_def)
qed

end
